theory Spec2Isabelle
  imports Complex_Main "HOL-Library.Multiset"
begin

section \<open>Values, strings and dictionaries of the Python source\<close>

text \<open>
  The records handled by \<^verbatim>\<open>assign_locations.py\<close> are dictionaries loaded from JSON files.
  Their field values are modelled as the JSON scalars \<open>null\<close>, booleans, integers and
  strings. Nested lists and objects as field values (unhashable in Python) and
  floating-point field values are outside the model.
\<close>

datatype jval = JNull | JBool bool | JInt int | JStr string

type_synonym pydict = "string \<rightharpoonup> jval"

text \<open>\<^verbatim>\<open>d.get(k)\<close> and \<^verbatim>\<open>d.get(k, default)\<close>.\<close>

definition dget :: "pydict \<Rightarrow> string \<Rightarrow> jval" where
  "dget d k = (case d k of None \<Rightarrow> JNull | Some v \<Rightarrow> v)"

definition dget_default :: "pydict \<Rightarrow> string \<Rightarrow> jval \<Rightarrow> jval" where
  "dget_default d k dflt = (case d k of None \<Rightarrow> dflt | Some v \<Rightarrow> v)"

text \<open>Python truthiness: \<^verbatim>\<open>None\<close>, \<^verbatim>\<open>False\<close>, \<^verbatim>\<open>0\<close> and \<^verbatim>\<open>''\<close> are falsy.\<close>

fun truthy :: "jval \<Rightarrow> bool" where
  "truthy JNull = False"
| "truthy (JBool b) = b"
| "truthy (JInt i) = (i \<noteq> 0)"
| "truthy (JStr s) = (s \<noteq> [])"

text \<open>
  Python \<^verbatim>\<open>==\<close> (and dictionary key identity) on these values: \<^verbatim>\<open>True == 1\<close> and
  \<^verbatim>\<open>False == 0\<close>, everything else compares within its own type.
\<close>

fun py_eq :: "jval \<Rightarrow> jval \<Rightarrow> bool" where
  "py_eq JNull JNull = True"
| "py_eq (JBool a) (JBool b) = (a = b)"
| "py_eq (JBool a) (JInt i) = (i = (if a then 1 else 0))"
| "py_eq (JInt i) (JBool a) = (i = (if a then 1 else 0))"
| "py_eq (JInt i) (JInt j) = (i = j)"
| "py_eq (JStr s) (JStr t) = (s = t)"
| "py_eq _ _ = False"

text \<open>\<^verbatim>\<open>str(v)\<close>: decimal digits for integers, \<^verbatim>\<open>'None'\<close>, \<^verbatim>\<open>'True'\<close>, \<^verbatim>\<open>'False'\<close>.\<close>

definition digit_char :: "nat \<Rightarrow> char" where
  "digit_char d = ''0123456789'' ! d"

fun nat_digits :: "nat \<Rightarrow> string" where
  "nat_digits n = (if n < 10 then [digit_char n] else nat_digits (n div 10) @ [digit_char (n mod 10)])"

declare nat_digits.simps [simp del]

fun py_str :: "jval \<Rightarrow> string" where
  "py_str JNull = ''None''"
| "py_str (JBool b) = (if b then ''True'' else ''False'')"
| "py_str (JInt i) = (if i < 0 then CHR ''-'' # nat_digits (nat (- i)) else nat_digits (nat i))"
| "py_str (JStr s) = s"

text \<open>The number a decimal numeral denotes.\<close>

definition digits_value :: "string \<Rightarrow> nat" where
  "digits_value s = foldl (\<lambda>acc c. 10 * acc + (of_char c - 48)) 0 s"

text \<open>
  \<^verbatim>\<open>s.strip()\<close> and \<^verbatim>\<open>s.lower()\<close>. A \<^typ>\<open>char\<close> is a code point below 256. Of these
  Python's whitespace characters are tab, line feed, vertical tab, form feed, carriage
  return, the separators \<^verbatim>\<open>0x1c\<close> to \<^verbatim>\<open>0x1f\<close>, the space, \<^verbatim>\<open>0x85\<close> and \<^verbatim>\<open>0xa0\<close>;
  \<^verbatim>\<open>lower\<close> moves the letters \<^verbatim>\<open>A\<close> to \<^verbatim>\<open>Z\<close> and \<^verbatim>\<open>0xc0\<close> to \<^verbatim>\<open>0xde\<close>, the
  multiplication sign \<^verbatim>\<open>0xd7\<close> apart, 32 code points up. Text with a code point from
  256 on is outside the model.
\<close>

definition is_space :: "char \<Rightarrow> bool" where
  "is_space c = (of_char c \<in> {9, 10, 11, 12, 13, 28, 29, 30, 31, 32, 133, 160 :: nat})"

definition py_strip :: "string \<Rightarrow> string" where
  "py_strip s = rev (dropWhile is_space (rev (dropWhile is_space s)))"

definition lower_char :: "char \<Rightarrow> char" where
  "lower_char c =
     (let n = of_char c :: nat
      in if (65 \<le> n \<and> n \<le> 90) \<or> (192 \<le> n \<and> n \<le> 222 \<and> n \<noteq> 215)
         then char_of (n + 32) else c)"

definition py_lower :: "string \<Rightarrow> string" where
  "py_lower s = map lower_char s"

section \<open>The assignment engine: \<^verbatim>\<open>assign_locations\<close>\<close>

text \<open>
  An element of the returned list: the dictionary with the keys \<^verbatim>\<open>e_id\<close>, \<^verbatim>\<open>name\<close>,
  \<^verbatim>\<open>assigned_locations\<close> and \<^verbatim>\<open>problem_occured\<close>.
\<close>

record assignment =
  e_id :: jval
  name :: jval
  assigned_locations :: "jval list"
  problem_occured :: jval

text \<open>
  \<^verbatim>\<open>by_problem\<close> is a dictionary from problem to the list of locations; it is kept as an
  association list whose keys are compared with Python equality.
  \<^verbatim>\<open>by_problem.setdefault(prob, []).append(loc)\<close>:
\<close>

type_synonym by_problem = "(jval \<times> jval list) list"

fun setdefault_append :: "by_problem \<Rightarrow> jval \<Rightarrow> jval \<Rightarrow> by_problem" where
  "setdefault_append [] prob loc = [(prob, [loc])]"
| "setdefault_append ((k, ls) # rest) prob loc =
     (if py_eq k prob then (k, ls @ [loc]) # rest
      else (k, ls) # setdefault_append rest prob loc)"

text \<open>\<^verbatim>\<open>by_problem.get(prob, [])\<close>:\<close>

fun by_problem_get :: "by_problem \<Rightarrow> jval \<Rightarrow> jval list" where
  "by_problem_get [] prob = []"
| "by_problem_get ((k, ls) # rest) prob =
     (if py_eq k prob then ls else by_problem_get rest prob)"

text \<open>The first loop: group the customers' locations by problem.\<close>

fun group_customers :: "pydict list \<Rightarrow> by_problem \<Rightarrow> by_problem" where
  "group_customers [] bp = bp"
| "group_customers (c # customers) bp =
     (let loc = dget c ''location'';
          prob = dget c ''problem_occured''
      in if \<not> truthy loc \<or> \<not> truthy prob then group_customers customers bp
         else group_customers customers (setdefault_append bp prob loc))"

text \<open>The availability test of the second loop.\<close>

definition avail_of :: "pydict \<Rightarrow> string" where
  "avail_of emp = py_lower (py_strip (py_str (dget_default emp ''availability'' (JStr ''''))))"

definition is_available :: "pydict \<Rightarrow> bool" where
  "is_available emp = (avail_of emp \<in> set [''yes'', ''1'', ''true'', ''available''])"

text \<open>The second loop: one assignment per available employee with locations.\<close>

fun assign_employees :: "by_problem \<Rightarrow> pydict list \<Rightarrow> assignment list \<Rightarrow> assignment list" where
  "assign_employees bp [] assignments = assignments"
| "assign_employees bp (emp # employees) assignments =
     (if \<not> is_available emp then assign_employees bp employees assignments
      else let prob = dget emp ''problem_occured'';
               locs = by_problem_get bp prob
           in if locs \<noteq> [] then
                assign_employees bp employees
                  (assignments @ [\<lparr>e_id = dget emp ''e_id'', name = dget emp ''name'',
                                   assigned_locations = locs, problem_occured = prob\<rparr>])
              else assign_employees bp employees assignments)"

definition assign_locations :: "pydict list \<Rightarrow> pydict list \<Rightarrow> assignment list" where
  "assign_locations employees customers =
     assign_employees (group_customers customers []) employees []"

section \<open>The distance function: \<^verbatim>\<open>haversine\<close>\<close>

datatype py_error = KeyError | ValueError

text \<open>
  The arithmetic of Python floats and the functions of the \<^verbatim>\<open>math\<close> module are not
  part of the repository: they are a parameter of the model, the record \<open>F\<close> of the
  operations the code uses. A float is the real number it denotes, so that floats are
  compared as reals, and each operation is the one of the runtime, with its rounding;
  nothing is assumed about the operations. The planner computes with the finite
  coordinates of the geocache only, where no infinity and no NaN arises.
\<close>

record flops =
  fl_radians :: "real \<Rightarrow> real"
  fl_sin :: "real \<Rightarrow> real"
  fl_cos :: "real \<Rightarrow> real"
  fl_sqrt :: "real \<Rightarrow> real"
  fl_atan2 :: "real \<Rightarrow> real \<Rightarrow> real"
  fl_add :: "real \<Rightarrow> real \<Rightarrow> real"
  fl_sub :: "real \<Rightarrow> real \<Rightarrow> real"
  fl_mul :: "real \<Rightarrow> real \<Rightarrow> real"
  fl_div :: "real \<Rightarrow> real \<Rightarrow> real"
  fl_pow2 :: "real \<Rightarrow> real"

text \<open>
  \<^verbatim>\<open>math.sqrt(x)\<close> raises \<^verbatim>\<open>ValueError\<close> (math domain error) on a negative argument.
\<close>

definition math_sqrt :: "flops \<Rightarrow> real \<Rightarrow> py_error + real" where
  "math_sqrt F x = (if x < 0 then Inl ValueError else Inr (fl_sqrt F x))"

text \<open>A coordinate is a (latitude, longitude) pair in degrees.\<close>

type_synonym coord = "real \<times> real"

text \<open>The local variable \<^verbatim>\<open>a_val\<close> of the function.\<close>

definition a_val :: "flops \<Rightarrow> coord \<Rightarrow> coord \<Rightarrow> real" where
  "a_val F a b =
     (let lat1 = fl_radians F (fst a); lon1 = fl_radians F (snd a);
          lat2 = fl_radians F (fst b); lon2 = fl_radians F (snd b);
          dlat = fl_sub F lat2 lat1;
          dlon = fl_sub F lon2 lon1
      in fl_add F (fl_pow2 F (fl_sin F (fl_div F dlat 2)))
           (fl_mul F (fl_mul F (fl_cos F lat1) (fl_cos F lat2))
              (fl_pow2 F (fl_sin F (fl_div F dlon 2)))))"

definition haversine :: "flops \<Rightarrow> coord \<Rightarrow> coord \<Rightarrow> py_error + real" where
  "haversine F a b =
     (case math_sqrt F (a_val F a b) of
        Inl e \<Rightarrow> Inl e
      | Inr s1 \<Rightarrow>
         (case math_sqrt F (fl_sub F 1 (a_val F a b)) of
            Inl e \<Rightarrow> Inl e
          | Inr s2 \<Rightarrow>
             (let c = fl_mul F 2 (fl_atan2 F s1 s2)
              in Inr (fl_mul F 6371 c))))"

text \<open>
  \<^verbatim>\<open>round(x, 2)\<close>: the nearest multiple of \<open>1/100\<close>, a tie going to the even one (the
  float returned is the one nearest to this decimal, which is what the JSON answer
  shows).
\<close>

definition py_round2 :: "real \<Rightarrow> real" where
  "py_round2 x =
     (let y = x * 100; f = \<lfloor>y\<rfloor>; r = y - of_int f
      in of_int (if r < 1 / 2 then f
                 else if 1 / 2 < r then f + 1
                 else if even f then f else f + 1) / 100)"

section \<open>The route planner: \<^verbatim>\<open>greedy_route_from_coords\<close>\<close>

text \<open>
  \<^verbatim>\<open>GEOCACHE\<close> maps a location key to its coordinate. The dictionary \<^verbatim>\<open>coords\<close> built by
  the planner keeps its keys in the order of their first insertion, which is the order
  \<^verbatim>\<open>list(coords.keys())\<close> returns: it is an association list, \<^verbatim>\<open>coords[k] = v\<close> replacing
  the value of a key already present in place and appending a new key at the end.
\<close>

type_synonym 'k coords = "('k \<times> coord) list"

fun dict_set :: "'k coords \<Rightarrow> 'k \<Rightarrow> coord \<Rightarrow> 'k coords" where
  "dict_set [] k v = [(k, v)]"
| "dict_set ((k', v') # rest) k v =
     (if k' = k then (k, v) # rest else (k', v') # dict_set rest k v)"

text \<open>\<^verbatim>\<open>coords[k]\<close>, which raises \<^verbatim>\<open>KeyError\<close> on a missing key.\<close>

definition dict_item :: "'k coords \<Rightarrow> 'k \<Rightarrow> py_error + coord" where
  "dict_item coords k = (case map_of coords k of None \<Rightarrow> Inl KeyError | Some v \<Rightarrow> Inr v)"

fun build_coords :: "('k \<rightharpoonup> coord) \<Rightarrow> 'k list \<Rightarrow> 'k coords \<Rightarrow> 'k coords" where
  "build_coords G [] coords = coords"
| "build_coords G (loc # locations) coords =
     (case G loc of
        None \<Rightarrow> build_coords G locations coords
      | Some val \<Rightarrow> build_coords G locations (dict_set coords loc val))"

text \<open>
  The inner \<^verbatim>\<open>for n in nodes\<close> loop. Its two variables \<^verbatim>\<open>nearest\<close> and \<^verbatim>\<open>ndist\<close> are
  assigned together: \<open>None\<close> stands for their initial values \<^verbatim>\<open>None\<close> and
  \<^verbatim>\<open>float('inf')\<close>, below which every distance lies, and \<open>Some (n, d)\<close> for
  \<^verbatim>\<open>nearest = n\<close>, \<^verbatim>\<open>ndist = d\<close>. An exception of \<^verbatim>\<open>haversine\<close> ends the loop.
\<close>

fun scan_nearest ::
  "flops \<Rightarrow> 'k coords \<Rightarrow> 'k set \<Rightarrow> 'k \<Rightarrow> 'k list \<Rightarrow> ('k \<times> real) option \<Rightarrow>
     py_error + ('k \<times> real) option"
where
  "scan_nearest F coords visited current [] best = Inr best"
| "scan_nearest F coords visited current (n # ns) best =
     (if n \<in> visited then scan_nearest F coords visited current ns best
      else case dict_item coords current of
        Inl e \<Rightarrow> Inl e
      | Inr a \<Rightarrow>
         (case dict_item coords n of
            Inl e \<Rightarrow> Inl e
          | Inr b \<Rightarrow>
             (case haversine F a b of
                Inl e \<Rightarrow> Inl e
              | Inr d \<Rightarrow>
                 if (case best of None \<Rightarrow> True | Some (nearest, ndist) \<Rightarrow> d < ndist)
                 then scan_nearest F coords visited current ns (Some (n, d))
                 else scan_nearest F coords visited current ns best)))"

text \<open>
  The scan only ever selects a node of the list it scans that is not yet visited; the
  outer loop terminates by this.
\<close>

lemma scan_nearest_Some:
  "scan_nearest F coords visited current ns best = Inr (Some (n, d)) \<Longrightarrow>
     (n \<in> set ns \<and> n \<notin> visited) \<or> best = Some (n, d)"
  by (induction ns arbitrary: best)
     (auto split: if_splits sum.splits option.splits)

text \<open>
  The \<^verbatim>\<open>while len(visited) < len(nodes)\<close> loop, with its \<^verbatim>\<open>break\<close> when no node was
  selected; \<^verbatim>\<open>total += ndist\<close> is the float addition.
\<close>

function route_loop ::
  "flops \<Rightarrow> 'k coords \<Rightarrow> 'k list \<Rightarrow> 'k list \<Rightarrow> 'k set \<Rightarrow> real \<Rightarrow> 'k \<Rightarrow>
     py_error + ('k list \<times> real)"
where
  "route_loop F coords nodes route visited tot current =
     (if card visited < length nodes then
        (case scan_nearest F coords visited current nodes None of
           Inl e \<Rightarrow> Inl e
         | Inr None \<Rightarrow> Inr (route, tot)
         | Inr (Some (nearest, ndist)) \<Rightarrow>
             route_loop F coords nodes (route @ [nearest]) (insert nearest visited)
               (fl_add F tot ndist) nearest)
      else Inr (route, tot))"
  by pat_completeness auto
termination
proof (relation
    "measure (\<lambda>(F, coords, nodes, route, visited, tot, current). card (set nodes - visited))")
  show "wf (measure
    (\<lambda>(F, coords, nodes, route, visited, tot, current). card (set nodes - visited)))"
    by simp
next
  fix F :: flops and coords :: "'k coords" and nodes route :: "'k list"
    and visited :: "'k set" and tot :: real and current :: 'k and x2 x2a
    and nearest :: 'k and ndist :: real
  assume "scan_nearest F coords visited current nodes None = Inr x2"
    and "x2 = Some x2a" and "(nearest, ndist) = x2a"
  then have "scan_nearest F coords visited current nodes None = Inr (Some (nearest, ndist))"
    by simp
  from scan_nearest_Some [OF this] have n: "nearest \<in> set nodes" "nearest \<notin> visited"
    by auto
  have "set nodes - insert nearest visited \<subset> set nodes - visited"
    using n by auto
  then have "card (set nodes - insert nearest visited) < card (set nodes - visited)"
    by (intro psubset_card_mono) auto
  then show "((F, coords, nodes, route @ [nearest], insert nearest visited,
               fl_add F tot ndist, nearest),
              F, coords, nodes, route, visited, tot, current)
             \<in> measure (\<lambda>(F, coords, nodes, route, visited, tot, current).
                  card (set nodes - visited))"
    by simp
qed

declare route_loop.simps [simp del]

text \<open>
  \<^verbatim>\<open>greedy_route_from_coords(locations, depot)\<close>; \<open>G\<close> is the module's \<^verbatim>\<open>GEOCACHE\<close> and
  a \<open>depot\<close> of \<open>None\<close> is Python's \<^verbatim>\<open>None\<close>, which is no key of \<^verbatim>\<open>coords\<close>.
\<close>

definition greedy_route_from_coords ::
  "flops \<Rightarrow> ('k \<rightharpoonup> coord) \<Rightarrow> 'k list \<Rightarrow> 'k option \<Rightarrow> py_error + ('k list \<times> real)"
where
  "greedy_route_from_coords F G locations depot =
     (let coords = build_coords G locations []
      in case map fst coords of
           [] \<Rightarrow> Inr ([], 0)
         | n0 # ns \<Rightarrow>
            (let nodes = n0 # ns;
                 start = (case depot of
                            None \<Rightarrow> n0
                          | Some d \<Rightarrow> if d \<in> set nodes then d else n0)
             in case route_loop F coords nodes [start] {start} 0 start of
                  Inl e \<Rightarrow> Inl e
                | Inr (route, tot) \<Rightarrow> Inr (route, py_round2 tot)))"

section \<open>The endpoints\<close>

text \<open>
  \<^verbatim>\<open>GEOCACHE\<close> is loaded from a JSON object, so its keys are strings; a value that is no
  string is no key of it.
\<close>

type_synonym geocache = "string \<rightharpoonup> coord"

definition geo :: "geocache \<Rightarrow> jval \<rightharpoonup> coord" where
  "geo G v = (case v of JStr s \<Rightarrow> G s | _ \<Rightarrow> None)"

text \<open>
  \<^verbatim>\<open>generate_route_map_html(emp_name, route)\<close>. The map itself is drawn by the folium
  library, which is taken as the parameter \<open>render\<close>; the function returns \<^verbatim>\<open>None\<close>
  when no location of the route has a coordinate.
\<close>

definition generate_route_map_html ::
  "(jval list \<Rightarrow> coord list \<Rightarrow> string) \<Rightarrow> geocache \<Rightarrow> jval \<Rightarrow> jval list \<Rightarrow> string option"
where
  "generate_route_map_html render G emp_name route =
     (let route_coords = List.map_filter (geo G) route
      in if route_coords = [] then None else Some (render route route_coords))"

text \<open>
  A response is a status code and a JSON body: an \<^verbatim>\<open>error\<close> message, or the fields of
  one of the three successful answers.
\<close>

datatype body =
    ErrorBody string
  | ErrorDetails string string
  | RouteMap jval jval "jval list" real "string option"
  | RouteOnly jval jval "jval list" real
  | MapOnly jval jval string real
  | ServerError py_error

type_synonym response = "nat \<times> body"

text \<open>
  The selection of the requested employee's assignment, the same text in the three
  endpoints: \<^verbatim>\<open>next((a for a in assignments if ...), None)\<close> is the first match.
\<close>

definition select_assignment :: "jval \<Rightarrow> jval \<Rightarrow> assignment list \<Rightarrow> response + assignment option" where
  "select_assignment e_id' name' assignments =
     (if truthy e_id' then
        Inr (find (\<lambda>a. py_str (e_id a) = py_str e_id') assignments)
      else if truthy name' then
        Inr (find (\<lambda>a. py_lower (py_strip (py_str (name a))) = py_lower (py_strip (py_str name')))
               assignments)
      else Inl (400, ErrorBody ''Provide e_id or name in JSON body''))"

definition depot_of :: "pydict \<Rightarrow> jval option" where
  "depot_of payload = (case dget payload ''depot'' of JNull \<Rightarrow> None | d \<Rightarrow> Some d)"

text \<open>
  \<^verbatim>\<open>assign_locations_endpoint\<close>. The request body is \<open>Inl details\<close> when it is no JSON
  (the text of the exception), else the payload; \<open>employees\<close> and \<open>customers\<close> are the
  lists \<^verbatim>\<open>load_json_candidates\<close> read from the files. An exception escaping the handler
  is the server's answer 500.
\<close>

definition assign_locations_endpoint ::
  "flops \<Rightarrow> (jval list \<Rightarrow> coord list \<Rightarrow> string) \<Rightarrow> geocache \<Rightarrow> pydict list \<Rightarrow> pydict list \<Rightarrow>
     string + pydict \<Rightarrow> response"
where
  "assign_locations_endpoint F render G employees customers request =
     (case request of
        Inl details \<Rightarrow> (400, ErrorDetails ''Invalid JSON body'' details)
      | Inr payload \<Rightarrow>
          if employees = [] then (404, ErrorBody ''No employee data found'')
          else if customers = [] then (404, ErrorBody ''No customer data found'')
          else
            (case select_assignment (dget payload ''e_id'') (dget payload ''name'')
                    (assign_locations employees customers) of
               Inl r \<Rightarrow> r
             | Inr None \<Rightarrow> (404, ErrorBody ''Employee not found or no assigned locations'')
             | Inr (Some emp) \<Rightarrow>
                 (let locations = assigned_locations emp;
                      locs_with_coords = filter (\<lambda>loc. geo G loc \<noteq> None) locations
                  in case greedy_route_from_coords F (geo G) locs_with_coords (depot_of payload) of
                       Inl e \<Rightarrow> (500, ServerError e)
                     | Inr (route, dist_km) \<Rightarrow>
                         (200, RouteMap (e_id emp) (name emp) route dist_km
                                 (generate_route_map_html render G (name emp) route)))))"

text \<open>\<^verbatim>\<open>optimized_route\<close>, which does not check the two lists for emptiness.\<close>

definition optimized_route ::
  "flops \<Rightarrow> geocache \<Rightarrow> pydict list \<Rightarrow> pydict list \<Rightarrow> string + pydict \<Rightarrow> response"
where
  "optimized_route F G employees customers request =
     (case request of
        Inl details \<Rightarrow> (400, ErrorDetails ''Invalid JSON body'' details)
      | Inr payload \<Rightarrow>
          (case select_assignment (dget payload ''e_id'') (dget payload ''name'')
                  (assign_locations employees customers) of
             Inl r \<Rightarrow> r
           | Inr None \<Rightarrow> (404, ErrorBody ''Employee not found or no assigned locations'')
           | Inr (Some emp) \<Rightarrow>
               (let locations = assigned_locations emp;
                    locs_with_coords = filter (\<lambda>loc. geo G loc \<noteq> None) locations
                in case greedy_route_from_coords F (geo G) locs_with_coords (depot_of payload) of
                     Inl e \<Rightarrow> (500, ServerError e)
                   | Inr (route, dist_km) \<Rightarrow>
                       (200, RouteOnly (e_id emp) (name emp) route dist_km))))"

text \<open>
  \<^verbatim>\<open>optimized_map\<close>, which answers 500 when no map could be drawn: \<^verbatim>\<open>not map_html\<close>
  holds of \<^verbatim>\<open>None\<close> and of the empty string.
\<close>

definition optimized_map ::
  "flops \<Rightarrow> (jval list \<Rightarrow> coord list \<Rightarrow> string) \<Rightarrow> geocache \<Rightarrow> pydict list \<Rightarrow> pydict list \<Rightarrow>
     string + pydict \<Rightarrow> response"
where
  "optimized_map F render G employees customers request =
     (case request of
        Inl details \<Rightarrow> (400, ErrorDetails ''Invalid JSON body'' details)
      | Inr payload \<Rightarrow>
          (case select_assignment (dget payload ''e_id'') (dget payload ''name'')
                  (assign_locations employees customers) of
             Inl r \<Rightarrow> r
           | Inr None \<Rightarrow> (404, ErrorBody ''Employee not found or no assigned locations'')
           | Inr (Some emp) \<Rightarrow>
               (let locations = assigned_locations emp;
                    locs_with_coords = filter (\<lambda>loc. geo G loc \<noteq> None) locations
                in case greedy_route_from_coords F (geo G) locs_with_coords (depot_of payload) of
                     Inl e \<Rightarrow> (500, ServerError e)
                   | Inr (route, dist_km) \<Rightarrow>
                       (case generate_route_map_html render G (name emp) route of
                          None \<Rightarrow> (500, ErrorBody ''Failed to generate map (no coordinates)'')
                        | Some map_html \<Rightarrow>
                            if map_html = [] then
                              (500, ErrorBody ''Failed to generate map (no coordinates)'')
                            else (200, MapOnly (e_id emp) (name emp) map_html dist_km)))))"

section \<open>The route planner as the specification words it\<close>

text \<open>
  The candidates are the resolvable locations in the order supplied, each key once, at
  its first occurrence.
\<close>

primrec keep_first :: "'k list \<Rightarrow> 'k list" where
  "keep_first [] = []"
| "keep_first (x # xs) = x # filter (\<lambda>y. y \<noteq> x) (keep_first xs)"

text \<open>
  The distance between two locations, computed by the code's \<^const>\<open>haversine\<close> from
  their coordinates in the geocache.
\<close>

definition geo_dist :: "flops \<Rightarrow> ('k \<rightharpoonup> coord) \<Rightarrow> 'k \<Rightarrow> 'k \<Rightarrow> py_error + real" where
  "geo_dist F G a b =
     (case G a of
        None \<Rightarrow> Inl KeyError
      | Some x \<Rightarrow> (case G b of None \<Rightarrow> Inl KeyError | Some y \<Rightarrow> haversine F x y))"

text \<open>
  The distances from the current node to the unvisited nodes, in scan order; the first
  computation that fails ends it.
\<close>

fun distances :: "('k \<Rightarrow> py_error + real) \<Rightarrow> 'k list \<Rightarrow> py_error + ('k \<times> real) list" where
  "distances f [] = Inr []"
| "distances f (u # us) =
     (case f u of
        Inl e \<Rightarrow> Inl e
      | Inr d \<Rightarrow> (case distances f us of Inl e \<Rightarrow> Inl e | Inr ds \<Rightarrow> Inr ((u, d) # ds)))"

lemma distances_keys: "distances f us = Inr ds \<Longrightarrow> map fst ds = us"
  by (induction us arbitrary: ds) (auto split: sum.splits)

text \<open>
  Repeat until all locations are visited: from the current node compute the distance to
  each unvisited node, select the first one, in the fixed scan order, at minimum
  distance (\<^const>\<open>arg_min_list\<close> keeps the earlier element on a tie), append it to the
  route, add its distance to the running total, mark it visited and advance to it.
\<close>

function nearest_neighbour ::
  "flops \<Rightarrow> ('k \<Rightarrow> 'k \<Rightarrow> py_error + real) \<Rightarrow> 'k \<Rightarrow> 'k list \<Rightarrow> 'k list \<Rightarrow> real \<Rightarrow>
     py_error + ('k list \<times> real)"
where
  "nearest_neighbour F dist_fn current unvisited route tot =
     (if unvisited = [] then Inr (route, tot)
      else case distances (dist_fn current) unvisited of
        Inl e \<Rightarrow> Inl e
      | Inr ds \<Rightarrow>
         (let nxt = fst (arg_min_list snd ds);
              d = snd (arg_min_list snd ds)
          in nearest_neighbour F dist_fn nxt (filter (\<lambda>u. u \<noteq> nxt) unvisited)
               (route @ [nxt]) (fl_add F tot d)))"
  by pat_completeness auto
termination
proof (relation "measure (\<lambda>(F, dist_fn, current, unvisited, route, tot). length unvisited)")
  show "wf (measure (\<lambda>(F, dist_fn, current, unvisited, route, tot). length unvisited))"
    by simp
next
  fix F :: flops and dist_fn :: "'k \<Rightarrow> 'k \<Rightarrow> py_error + real" and current :: 'k
    and unvisited route :: "'k list" and tot :: real and ds :: "('k \<times> real) list"
    and nxt :: 'k and d :: real
  assume ne: "unvisited \<noteq> []"
    and ds: "distances (dist_fn current) unvisited = Inr ds"
    and nxt: "nxt = fst (arg_min_list snd ds)"
  have keys: "map fst ds = unvisited"
    using ds by (rule distances_keys)
  then have "ds \<noteq> []"
    using ne by auto
  then have "arg_min_list snd ds \<in> set ds"
    by (rule arg_min_list_in)
  then have "nxt \<in> set unvisited"
    unfolding nxt keys [symmetric] by simp
  then have "length (filter (\<lambda>u. u \<noteq> nxt) unvisited) < length unvisited"
    by (intro length_filter_less) auto
  then show "((F, dist_fn, nxt, filter (\<lambda>u. u \<noteq> nxt) unvisited, route @ [nxt], fl_add F tot d),
              F, dist_fn, current, unvisited, route, tot)
             \<in> measure (\<lambda>(F, dist_fn, current, unvisited, route, tot). length unvisited)"
    by simp
qed

declare nearest_neighbour.simps [simp del]

text \<open>
  No candidate: the empty route and distance 0. Otherwise start at the depot if it is a
  candidate, else at the first candidate; run the selection; round the total.
\<close>

definition planRoute_spec ::
  "flops \<Rightarrow> ('k \<rightharpoonup> coord) \<Rightarrow> 'k list \<Rightarrow> 'k option \<Rightarrow> py_error + ('k list \<times> real)"
where
  "planRoute_spec F G locations depot =
     (case keep_first (filter (\<lambda>l. G l \<noteq> None) locations) of
        [] \<Rightarrow> Inr ([], 0)
      | first # others \<Rightarrow>
          (let candidates = first # others;
               start = (case depot of
                          None \<Rightarrow> first
                        | Some d \<Rightarrow> if d \<in> set candidates then d else first)
           in case nearest_neighbour F (geo_dist F G) start
                     (filter (\<lambda>n. n \<noteq> start) candidates) [start] 0 of
                Inl e \<Rightarrow> Inl e
              | Inr (route, tot) \<Rightarrow> Inr (route, py_round2 tot)))"

text \<open>
  The state of the inner scan after the unvisited nodes of the distance list \<open>ds\<close>, from
  the state \<open>best\<close> before them.
\<close>

definition pick :: "('k \<times> real) list \<Rightarrow> ('k \<times> real) option \<Rightarrow> ('k \<times> real) option" where
  "pick ds best =
     (if ds = [] then best
      else let m = arg_min_list snd ds
           in case best of None \<Rightarrow> Some m
              | Some (b, db) \<Rightarrow> if snd m < db then Some m else best)"

text \<open>
  An arithmetic for the examples: the exact operations on the reals, with
  \<^verbatim>\<open>math.radians\<close> and \<^verbatim>\<open>math.atan2\<close> as follows.
\<close>

definition radians :: "real \<Rightarrow> real" where
  "radians x = x * pi / 180"

definition atan2 :: "real \<Rightarrow> real \<Rightarrow> real" where
  "atan2 y x =
     (if 0 < x then arctan (y / x)
      else if x < 0 \<and> 0 \<le> y then arctan (y / x) + pi
      else if x < 0 then arctan (y / x) - pi
      else if 0 < y then pi / 2
      else if y < 0 then - (pi / 2)
      else 0)"

definition exact_flops :: flops where
  "exact_flops =
     \<lparr>fl_radians = radians, fl_sin = sin, fl_cos = cos, fl_sqrt = sqrt, fl_atan2 = atan2,
      fl_add = (+), fl_sub = (-), fl_mul = (*), fl_div = (/), fl_pow2 = (\<lambda>x. x\<^sup>2)\<rparr>"

text \<open>
  An arithmetic whose addition rounds up by \<open>1 / 10 ^ 15\<close>: an instance in which the sum
  \<^verbatim>\<open>a_val\<close> exceeds 1 at the coordinates \<open>(82, 0)\<close> and \<open>(-82, 180)\<close>.
\<close>

definition rounding_up_flops :: flops where
  "rounding_up_flops = exact_flops\<lparr>fl_add := (\<lambda>x y. x + y + 1 / 10 ^ 15)\<rparr>"

section \<open>The assignment engine as a filter over the two lists\<close>

text \<open>The tickets the first loop keeps: location and problem both truthy.\<close>

definition routable_ticket :: "pydict \<Rightarrow> bool" where
  "routable_ticket c = (truthy (dget c ''location'') \<and> truthy (dget c ''problem_occured''))"

text \<open>
  The locations, in ticket order and with duplicates, of the kept tickets whose problem
  is equal to \<open>prob\<close> as a value.
\<close>

definition matching_locations :: "pydict list \<Rightarrow> jval \<Rightarrow> jval list" where
  "matching_locations customers prob =
     map (\<lambda>c. dget c ''location'')
       (filter (\<lambda>c. routable_ticket c \<and> py_eq (dget c ''problem_occured'') prob) customers)"


section \<open>Properties of the distance function\<close>

text \<open>
  \<^verbatim>\<open>haversine\<close> raises when the arithmetic gives an \<^verbatim>\<open>a_val\<close> below 0 or, as rounding
  does for points near each other's antipodes, above 1.
\<close>

lemma haversine_raises_iff:
  "haversine F a b = Inl e \<longleftrightarrow>
     e = ValueError \<and> (a_val F a b < 0 \<or> fl_sub F 1 (a_val F a b) < 0)"
  by (auto simp add: haversine_def math_sqrt_def Let_def split: sum.splits if_splits)

section \<open>Properties of the route planner\<close>

subsection \<open>The coordinate dictionary\<close>

lemma set_keep_first [simp]: "set (keep_first xs) = set xs"
  by (induction xs) auto

lemma distinct_keep_first [simp]: "distinct (keep_first xs)"
  by (induction xs) auto

lemma filter_neq_absent: "x \<notin> set xs \<Longrightarrow> filter (\<lambda>u. u \<noteq> x) xs = xs"
  by (induction xs) auto

lemma keep_first_distinct: "distinct xs \<Longrightarrow> keep_first xs = xs"
  by (induction xs) (auto simp: filter_neq_absent)

lemma keys_dict_set:
  "map fst (dict_set coords k v) =
     (if k \<in> fst ` set coords then map fst coords else map fst coords @ [k])"
  by (induction coords k v rule: dict_set.induct) auto

lemma set_keys_dict_set: "fst ` set (dict_set coords k v) = insert k (fst ` set coords)"
  by (induction coords k v rule: dict_set.induct) auto

lemma map_of_dict_set: "map_of (dict_set coords k v) = (map_of coords)(k \<mapsto> v)"
  by (induction coords k v rule: dict_set.induct) auto

lemma keys_build_coords:
  "map fst (build_coords G locations coords) =
     map fst coords @
     filter (\<lambda>l. l \<notin> fst ` set coords) (keep_first (filter (\<lambda>l. G l \<noteq> None) locations))"
proof (induction locations arbitrary: coords)
  case Nil
  then show ?case by simp
next
  case (Cons loc locations)
  show ?case
  proof (cases "G loc")
    case None
    then show ?thesis using Cons.IH by simp
  next
    case (Some val)
    show ?thesis
      using Some Cons.IH [of "dict_set coords loc val"]
      by (auto simp add: keys_dict_set set_keys_dict_set filter_filter conj_commute
          cong: filter_cong)
  qed
qed

lemma map_of_build_coords:
  "map_of (build_coords G locations coords) k =
     (if k \<in> set locations \<and> G k \<noteq> None then G k else map_of coords k)"
  by (induction locations arbitrary: coords) (auto simp: map_of_dict_set split: option.splits)

subsection \<open>The inner scan selects the first minimum\<close>

lemma pick_Nil [simp]: "pick [] best = best"
  by (simp add: pick_def)

lemma pick_Cons:
  "pick ((n, d) # ds) best =
     pick ds (if (case best of None \<Rightarrow> True | Some (b, db) \<Rightarrow> d < db)
              then Some (n, d) else best)"
  by (cases ds) (auto simp: pick_def Let_def split: option.splits)

lemma scan_nearest_pick:
  assumes "map_of coords current = Some a"
    and "\<forall>n\<in>set ns. n \<notin> visited \<longrightarrow> map_of coords n \<noteq> None"
  shows "scan_nearest F coords visited current ns best =
           (case distances (\<lambda>n. haversine F a (the (map_of coords n)))
                   (filter (\<lambda>n. n \<notin> visited) ns) of
              Inl e \<Rightarrow> Inl e
            | Inr ds \<Rightarrow> Inr (pick ds best))"
  using assms
proof (induction ns arbitrary: best)
  case Nil
  then show ?case by simp
next
  case (Cons n ns)
  show ?case
  proof (cases "n \<in> visited")
    case True
    then show ?thesis using Cons by simp
  next
    case False
    then obtain b where b: "map_of coords n = Some b"
      using Cons.prems by auto
    show ?thesis
    proof (cases "haversine F a b")
      case (Inl e)
      then show ?thesis
        using False b Cons.prems by (simp add: dict_item_def)
    next
      case (Inr d)
      let ?best = "if (case best of None \<Rightarrow> True | Some (nearest, ndist) \<Rightarrow> d < ndist)
                   then Some (n, d) else best"
      have "scan_nearest F coords visited current (n # ns) best =
              scan_nearest F coords visited current ns ?best"
        using False b Inr Cons.prems(1) by (simp add: dict_item_def)
      also have "\<dots> = (case distances (\<lambda>n. haversine F a (the (map_of coords n)))
                              (filter (\<lambda>n. n \<notin> visited) ns) of
                         Inl e \<Rightarrow> Inl e
                       | Inr ds \<Rightarrow> Inr (pick ds ?best))"
        using Cons.prems by (intro Cons.IH) auto
      also have "\<dots> = (case distances (\<lambda>n. haversine F a (the (map_of coords n)))
                              (filter (\<lambda>n. n \<notin> visited) (n # ns)) of
                         Inl e \<Rightarrow> Inl e
                       | Inr ds \<Rightarrow> Inr (pick ds best))"
        using False b Inr by (simp add: pick_Cons split: sum.splits)
      finally show ?thesis .
    qed
  qed
qed

lemma distances_cong:
  "\<forall>x\<in>set xs. f x = g x \<Longrightarrow> distances f xs = distances g xs"
  by (induction xs) (auto split: sum.splits)

lemma distances_total:
  "\<forall>x\<in>set xs. \<exists>d. f x = Inr d \<Longrightarrow> \<exists>ds. distances f xs = Inr ds"
  by (induction xs) (auto split: sum.splits)

subsection \<open>The outer loop is the nearest-neighbour selection\<close>

lemma card_lt_length_iff:
  assumes "distinct nodes" and "visited \<subseteq> set nodes"
  shows "card visited < length nodes \<longleftrightarrow> filter (\<lambda>n. n \<notin> visited) nodes \<noteq> []"
proof -
  have len: "length nodes = card (set nodes)"
    using assms(1) by (simp add: distinct_card)
  have "card visited < card (set nodes) \<longleftrightarrow> visited \<noteq> set nodes"
  proof
    assume "card visited < card (set nodes)"
    then show "visited \<noteq> set nodes" by auto
  next
    assume "visited \<noteq> set nodes"
    with assms(2) have "visited \<subset> set nodes" by auto
    then show "card visited < card (set nodes)"
      by (intro psubset_card_mono) auto
  qed
  moreover have "filter (\<lambda>n. n \<notin> visited) nodes \<noteq> [] \<longleftrightarrow> visited \<noteq> set nodes"
    using assms(2) by (auto simp: filter_empty_conv)
  ultimately show ?thesis using len by simp
qed

lemma route_loop_refines:
  assumes "distinct nodes" and "visited \<subseteq> set nodes" and "current \<in> set nodes"
    and "\<forall>n\<in>set nodes. map_of coords n \<noteq> None"
  shows "route_loop F coords nodes route visited tot current =
           nearest_neighbour F
             (\<lambda>a b. haversine F (the (map_of coords a)) (the (map_of coords b)))
             current (filter (\<lambda>n. n \<notin> visited) nodes) route tot"
  using assms
proof (induction F coords nodes route visited tot current rule: route_loop.induct)
  case (1 F coords nodes route visited tot current)
  let ?d = "\<lambda>a b. haversine F (the (map_of coords a)) (the (map_of coords b))"
  let ?us = "filter (\<lambda>n. n \<notin> visited) nodes"
  show ?case
  proof (cases "card visited < length nodes")
    case False
    then have "?us = []"
      using card_lt_length_iff [OF "1.prems"(1,2)] by simp
    then show ?thesis
      using False by (simp add: route_loop.simps nearest_neighbour.simps)
  next
    case True
    then have us: "?us \<noteq> []"
      using card_lt_length_iff [OF "1.prems"(1,2)] by simp
    obtain a where a: "map_of coords current = Some a"
      using "1.prems"(3,4) by auto
    have scan: "scan_nearest F coords visited current nodes None =
                  (case distances (?d current) ?us of
                     Inl e \<Rightarrow> Inl e | Inr ds \<Rightarrow> Inr (pick ds None))"
      using scan_nearest_pick [OF a, of nodes visited F None] "1.prems"(4) a by simp
    show ?thesis
    proof (cases "distances (?d current) ?us")
      case (Inl e)
      then show ?thesis
        using True us scan
        by (simp add: route_loop.simps [of F coords nodes route visited]
            nearest_neighbour.simps [of F ?d current ?us])
    next
      case (Inr ds)
      have keys: "map fst ds = ?us"
        using Inr by (rule distances_keys)
      then have ne: "ds \<noteq> []"
        using us by auto
      define m where "m = fst (arg_min_list snd ds)"
      define d where "d = snd (arg_min_list snd ds)"
      have scan': "scan_nearest F coords visited current nodes None = Inr (Some (m, d))"
        using scan Inr ne by (simp add: pick_def m_def d_def)
      have "arg_min_list snd ds \<in> set ds"
        using ne by (rule arg_min_list_in)
      then have m_in: "m \<in> set ?us"
        unfolding m_def keys [symmetric] by simp
      then have m_nodes: "m \<in> set nodes" by simp
      have flt: "filter (\<lambda>n. n \<notin> insert m visited) nodes = filter (\<lambda>u. u \<noteq> m) ?us"
        by (auto simp: filter_filter intro: filter_cong)
      have "route_loop F coords nodes (route @ [m]) (insert m visited) (fl_add F tot d) m =
              nearest_neighbour F ?d m (filter (\<lambda>n. n \<notin> insert m visited) nodes)
                (route @ [m]) (fl_add F tot d)"
        using "1.IH" [OF True scan' refl refl] "1.prems" m_nodes by simp
      then show ?thesis
        using True scan' us flt Inr
        by (simp add: route_loop.simps [of F coords nodes route visited]
            nearest_neighbour.simps [of F ?d current ?us] m_def [symmetric] d_def [symmetric]
            Let_def)
    qed
  qed
qed

lemma nearest_neighbour_cong:
  assumes "\<forall>a\<in>S. \<forall>b\<in>S. d a b = d' a b" and "current \<in> S" and "set unvisited \<subseteq> S"
  shows "nearest_neighbour F d current unvisited route tot =
         nearest_neighbour F d' current unvisited route tot"
  using assms
proof (induction F d current unvisited route tot rule: nearest_neighbour.induct)
  case (1 F d current unvisited route tot)
  show ?case
  proof (cases "unvisited = []")
    case True
    then show ?thesis by (simp add: nearest_neighbour.simps)
  next
    case False
    have eq: "distances (d' current) unvisited = distances (d current) unvisited"
      using "1.prems" by (intro distances_cong) auto
    show ?thesis
    proof (cases "distances (d current) unvisited")
      case (Inl e)
      then show ?thesis
        using False eq
        by (simp add: nearest_neighbour.simps [of F d current unvisited]
            nearest_neighbour.simps [of F d' current unvisited])
    next
      case (Inr ds)
      define nxt where "nxt = fst (arg_min_list snd ds)"
      define x where "x = snd (arg_min_list snd ds)"
      have keys: "map fst ds = unvisited"
        using Inr by (rule distances_keys)
      then have "ds \<noteq> []" using False by auto
      then have "arg_min_list snd ds \<in> set ds"
        by (rule arg_min_list_in)
      then have nxt_in: "nxt \<in> set unvisited"
        unfolding nxt_def keys [symmetric] by simp
      have sub: "nxt \<in> S" "set (filter (\<lambda>u. u \<noteq> nxt) unvisited) \<subseteq> S"
        using "1.prems" nxt_in by auto
      have "nearest_neighbour F d nxt (filter (\<lambda>u. u \<noteq> nxt) unvisited) (route @ [nxt])
               (fl_add F tot x)
          = nearest_neighbour F d' nxt (filter (\<lambda>u. u \<noteq> nxt) unvisited) (route @ [nxt])
               (fl_add F tot x)"
        by (rule "1.IH" [OF False Inr nxt_def x_def "1.prems"(1) sub])
      then show ?thesis
        using False eq Inr
        by (simp add: nearest_neighbour.simps [of F d current unvisited]
            nearest_neighbour.simps [of F d' current unvisited]
            nxt_def [symmetric] x_def [symmetric] Let_def)
    qed
  qed
qed

lemma greedy_route_refines:
  "greedy_route_from_coords F G locations depot = planRoute_spec F G locations depot"
proof -
  define coords where "coords = build_coords G locations []"
  define nodes where "nodes = keep_first (filter (\<lambda>l. G l \<noteq> None) locations)"
  have keys: "map fst coords = nodes"
    unfolding coords_def nodes_def by (simp add: keys_build_coords)
  have lookup: "\<forall>n\<in>set nodes. map_of coords n = G n \<and> G n \<noteq> None"
    unfolding coords_def nodes_def by (auto simp: map_of_build_coords)
  show ?thesis
  proof (cases nodes)
    case Nil
    then show ?thesis
      unfolding greedy_route_from_coords_def planRoute_spec_def
        coords_def [symmetric] nodes_def [symmetric]
      using keys by simp
  next
    case (Cons n0 ns)
    define start where
      "start = (case depot of None \<Rightarrow> n0 | Some d \<Rightarrow> if d \<in> set (n0 # ns) then d else n0)"
    have start_in: "start \<in> set nodes"
      unfolding start_def using Cons by (auto split: option.splits)
    have dn: "distinct nodes"
      unfolding nodes_def by simp
    have "route_loop F coords nodes [start] {start} 0 start =
            nearest_neighbour F
              (\<lambda>a b. haversine F (the (map_of coords a)) (the (map_of coords b)))
              start (filter (\<lambda>n. n \<noteq> start) nodes) [start] 0"
      using route_loop_refines [OF dn _ start_in, of "{start}" coords F "[start]" 0]
        start_in lookup
      by (simp del: filter_filter)
    also have "\<dots> = nearest_neighbour F (geo_dist F G) start
                       (filter (\<lambda>n. n \<noteq> start) nodes) [start] 0"
      using lookup start_in
      by (intro nearest_neighbour_cong [where S = "set nodes"])
         (auto simp: geo_dist_def split: option.splits)
    finally have loop: "route_loop F coords nodes [start] {start} 0 start =
        nearest_neighbour F (geo_dist F G) start (filter (\<lambda>n. n \<noteq> start) nodes) [start] 0" .
    show ?thesis
      unfolding greedy_route_from_coords_def planRoute_spec_def Let_def
        coords_def [symmetric] nodes_def [symmetric] keys Cons list.case start_def [symmetric]
      using loop [unfolded Cons] by simp
  qed
qed

subsection \<open>A returned route is a permutation of the candidates\<close>

lemma mset_filter_neq:
  "distinct xs \<Longrightarrow> x \<in> set xs \<Longrightarrow> mset (filter (\<lambda>u. u \<noteq> x) xs) + {#x#} = mset xs"
  by (induction xs) (auto simp: filter_neq_absent simp del: mset_filter)

lemma nearest_neighbour_mset:
  "nearest_neighbour F d current unvisited route tot = Inr (r, t) \<Longrightarrow> distinct unvisited \<Longrightarrow>
     mset r = mset route + mset unvisited"
proof (induction F d current unvisited route tot rule: nearest_neighbour.induct)
  case (1 F d current unvisited route tot)
  show ?case
  proof (cases "unvisited = []")
    case True
    then show ?thesis
      using "1.prems" by (simp add: nearest_neighbour.simps)
  next
    case False
    then obtain ds where ds: "distances (d current) unvisited = Inr ds"
      using "1.prems"(1)
      by (cases "distances (d current) unvisited")
         (simp_all add: nearest_neighbour.simps [of F d current unvisited])
    define nxt where "nxt = fst (arg_min_list snd ds)"
    define x where "x = snd (arg_min_list snd ds)"
    have keys: "map fst ds = unvisited"
      using ds by (rule distances_keys)
    then have "ds \<noteq> []" using False by auto
    then have "arg_min_list snd ds \<in> set ds"
      by (rule arg_min_list_in)
    then have nxt_in: "nxt \<in> set unvisited"
      unfolding nxt_def keys [symmetric] by simp
    have m: "mset (filter (\<lambda>u. u \<noteq> nxt) unvisited) + {#nxt#} = mset unvisited"
      using "1.prems"(2) nxt_in by (rule mset_filter_neq)
    have rec: "nearest_neighbour F d nxt (filter (\<lambda>u. u \<noteq> nxt) unvisited) (route @ [nxt])
                 (fl_add F tot x) = Inr (r, t)"
      using "1.prems"(1) False ds
      by (simp add: nearest_neighbour.simps [of F d current unvisited]
          nxt_def [symmetric] x_def [symmetric] Let_def)
    have "mset r = mset (route @ [nxt]) + mset (filter (\<lambda>u. u \<noteq> nxt) unvisited)"
      using "1.IH" [OF False ds nxt_def x_def rec] "1.prems"(2) by simp
    then show ?thesis
      using m by (simp add: add.assoc add.commute)
  qed
qed

lemma nearest_neighbour_total:
  assumes "\<forall>a\<in>S. \<forall>b\<in>S. a \<noteq> b \<longrightarrow> (\<exists>x. d a b = Inr x)"
    and "current \<in> S" and "set unvisited \<subseteq> S" and "current \<notin> set unvisited"
  shows "\<exists>r t. nearest_neighbour F d current unvisited route tot = Inr (r, t)"
  using assms
proof (induction F d current unvisited route tot rule: nearest_neighbour.induct)
  case (1 F d current unvisited route tot)
  show ?case
  proof (cases "unvisited = []")
    case True
    then show ?thesis by (simp add: nearest_neighbour.simps)
  next
    case False
    have "\<forall>u\<in>set unvisited. \<exists>x. d current u = Inr x"
    proof
      fix u
      assume "u \<in> set unvisited"
      then have "u \<in> S" "current \<noteq> u"
        using "1.prems"(3,4) by auto
      then show "\<exists>x. d current u = Inr x"
        using "1.prems"(1,2) by blast
    qed
    then obtain ds where ds: "distances (d current) unvisited = Inr ds"
      using distances_total [of unvisited "d current"] by blast
    define nxt where "nxt = fst (arg_min_list snd ds)"
    define x where "x = snd (arg_min_list snd ds)"
    have keys: "map fst ds = unvisited"
      using ds by (rule distances_keys)
    then have "ds \<noteq> []" using False by auto
    then have "arg_min_list snd ds \<in> set ds"
      by (rule arg_min_list_in)
    then have nxt_in: "nxt \<in> set unvisited"
      unfolding nxt_def keys [symmetric] by simp
    have sub: "nxt \<in> S" "set (filter (\<lambda>u. u \<noteq> nxt) unvisited) \<subseteq> S"
      "nxt \<notin> set (filter (\<lambda>u. u \<noteq> nxt) unvisited)"
      using "1.prems" nxt_in by auto
    have "\<exists>r t. nearest_neighbour F d nxt (filter (\<lambda>u. u \<noteq> nxt) unvisited) (route @ [nxt])
                   (fl_add F tot x) = Inr (r, t)"
      by (rule "1.IH" [OF False ds nxt_def x_def "1.prems"(1) sub])
    then show ?thesis
      using False ds
      by (simp add: nearest_neighbour.simps [of F d current unvisited]
          nxt_def [symmetric] x_def [symmetric] Let_def)
  qed
qed

lemma py_round2_0: "py_round2 0 = 0"
  by (simp add: py_round2_def)

lemma greedy_route_perm:
  assumes "greedy_route_from_coords F G locations depot = Inr (route, d)"
  shows "mset route = mset (keep_first (filter (\<lambda>l. G l \<noteq> None) locations))"
proof -
  define nodes where "nodes = keep_first (filter (\<lambda>l. G l \<noteq> None) locations)"
  have dn: "distinct nodes"
    unfolding nodes_def by simp
  have spec: "planRoute_spec F G locations depot = Inr (route, d)"
    using assms by (simp add: greedy_route_refines)
  show ?thesis
  proof (cases nodes)
    case Nil
    then show ?thesis
      using spec unfolding planRoute_spec_def nodes_def [symmetric] by simp
  next
    case (Cons n0 ns)
    define start where
      "start = (case depot of None \<Rightarrow> n0 | Some d \<Rightarrow> if d \<in> set (n0 # ns) then d else n0)"
    have start_in: "start \<in> set nodes"
      unfolding start_def using Cons by (auto split: option.splits)
    from spec obtain t where
      nn: "nearest_neighbour F (geo_dist F G) start (filter (\<lambda>n. n \<noteq> start) (n0 # ns))
             [start] 0 = Inr (route, t)"
      unfolding planRoute_spec_def Let_def nodes_def [symmetric] Cons list.case
        start_def [symmetric]
      by (auto split: sum.splits)
    have "mset route = mset [start] + mset (filter (\<lambda>n. n \<noteq> start) nodes)"
      using nn dn unfolding Cons [symmetric] by (intro nearest_neighbour_mset) auto
    also have "\<dots> = mset nodes"
      using mset_filter_neq [OF dn start_in] by (simp add: add.commute)
    finally show ?thesis
      unfolding nodes_def .
  qed
qed

lemma greedy_route_total:
  assumes "\<forall>a\<in>set locations. \<forall>b\<in>set locations.
             a \<noteq> b \<longrightarrow> G a \<noteq> None \<longrightarrow> G b \<noteq> None \<longrightarrow> (\<exists>x. geo_dist F G a b = Inr x)"
  shows "\<exists>route d. greedy_route_from_coords F G locations depot = Inr (route, d)"
proof -
  define nodes where "nodes = keep_first (filter (\<lambda>l. G l \<noteq> None) locations)"
  have S: "\<forall>a\<in>set nodes. \<forall>b\<in>set nodes. a \<noteq> b \<longrightarrow> (\<exists>x. geo_dist F G a b = Inr x)"
    using assms unfolding nodes_def by auto
  show ?thesis
  proof (cases nodes)
    case Nil
    then show ?thesis
      unfolding greedy_route_refines planRoute_spec_def nodes_def [symmetric] by simp
  next
    case (Cons n0 ns)
    define start where
      "start = (case depot of None \<Rightarrow> n0 | Some d \<Rightarrow> if d \<in> set (n0 # ns) then d else n0)"
    have start_in: "start \<in> set nodes"
      unfolding start_def using Cons by (auto split: option.splits)
    have "\<exists>r t. nearest_neighbour F (geo_dist F G) start (filter (\<lambda>n. n \<noteq> start) nodes)
                   [start] 0 = Inr (r, t)"
      using S start_in by (intro nearest_neighbour_total [where S = "set nodes"]) auto
    then obtain r t where
      "nearest_neighbour F (geo_dist F G) start (filter (\<lambda>n. n \<noteq> start) (n0 # ns))
         [start] 0 = Inr (r, t)"
      unfolding Cons by blast
    then show ?thesis
      unfolding greedy_route_refines planRoute_spec_def Let_def nodes_def [symmetric] Cons
        list.case start_def [symmetric]
      by simp
  qed
qed

text \<open>
  What \<^const>\<open>arg_min_list\<close> selects: every element before it is strictly farther, no
  element after it is nearer.
\<close>

lemma arg_min_list_first_minimum:
  "xs \<noteq> [] \<Longrightarrow>
     \<exists>ys zs. xs = ys @ arg_min_list f xs # zs \<and>
       (\<forall>y\<in>set ys. f (arg_min_list f xs) < f y) \<and>
       (\<forall>z\<in>set zs. f (arg_min_list f xs) \<le> f z)"
proof (induction f xs rule: arg_min_list.induct)
  case (1 f x)
  show ?case
    by (rule exI [of _ "[]"], rule exI [of _ "[]"]) simp
next
  case (2 f x y zs)
  let ?m = "arg_min_list f (y # zs)"
  from 2 obtain ys' zs' where d: "y # zs = ys' @ ?m # zs'"
    and lt: "\<forall>a\<in>set ys'. f ?m < f a" and le: "\<forall>a\<in>set zs'. f ?m \<le> f a"
    by auto
  show ?case
  proof (cases "f x \<le> f ?m")
    case True
    have "\<forall>z\<in>set (ys' @ ?m # zs'). f ?m \<le> f z"
      using lt le by auto
    then have "\<forall>z\<in>set (y # zs). f x \<le> f z"
      using True unfolding d [symmetric] by (meson order_trans)
    then show ?thesis
      using True by (intro exI [of _ "[]"] exI [of _ "y # zs"]) (simp add: Let_def)
  next
    case False
    then show ?thesis
      using d lt le
      by (intro exI [of _ "x # ys'"] exI [of _ zs']) (auto simp add: Let_def)
  qed
next
  case (3 f)
  then show ?case by simp
qed

text \<open>
  \<^const>\<open>py_round2\<close> gives a multiple of \<open>1/100\<close> at most \<open>1/200\<close> away.
\<close>

lemma py_round2_nearest:
  "\<exists>k::int. py_round2 x = of_int k / 100 \<and> \<bar>py_round2 x - x\<bar> \<le> 1 / 200"
proof -
  define y where "y = x * 100"
  define f where "f = \<lfloor>y\<rfloor>"
  define r where "r = y - of_int f"
  define k where "k = (if r < 1 / 2 then f else if 1 / 2 < r then f + 1
                       else if even f then f else f + 1)"
  have r: "0 \<le> r" "r < 1"
    unfolding r_def f_def by linarith+
  have p: "py_round2 x = of_int k / 100"
    unfolding py_round2_def Let_def k_def r_def f_def y_def by simp
  have "\<bar>of_int k - y\<bar> \<le> 1 / 2"
    using r unfolding k_def r_def by (auto split: if_splits)
  then have "\<bar>of_int k / 100 - x\<bar> \<le> 1 / 200"
    unfolding y_def by (simp add: field_simps abs_le_iff)
  then have "\<bar>py_round2 x - x\<bar> \<le> 1 / 200"
    by (simp only: p)
  then show ?thesis
    using p by blast
qed

text \<open>The distances of the examples.\<close>

lemma haversine_exact_examples:
  "haversine exact_flops (0, 0) (0, 0) = Inr 0"
  "haversine exact_flops (0, 180) (0, 180) = Inr 0"
  "haversine exact_flops (0, 0) (0, 180) = Inr (6371 * pi)"
  "haversine exact_flops (0, 180) (0, 0) = Inr (6371 * pi)"
  by (simp_all add: haversine_def a_val_def math_sqrt_def exact_flops_def radians_def atan2_def)

lemma fl_add_exact: "fl_add exact_flops x y = x + y"
  by (simp add: exact_flops_def)

lemma a_val_rounding_up_example:
  "a_val rounding_up_flops (82, 0) (-82, 180) = 1 + 1 / 10 ^ 15"
proof -
  have s: "sin (41 * pi / 90) * sin (41 * pi / 90) + cos (41 * pi / 90) * cos (41 * pi / 90) = 1"
    using sin_cos_squared_add [of "41 * pi / 90"] by (simp add: power2_eq_square)
  have "a_val rounding_up_flops (82, 0) (-82, 180) =
        sin (41 * pi / 90) * sin (41 * pi / 90) + cos (41 * pi / 90) * cos (41 * pi / 90)
          + 1 / 10 ^ 15"
    by (simp add: a_val_def exact_flops_def rounding_up_flops_def radians_def Let_def
        power2_eq_square)
  thus ?thesis using s by simp
qed

lemma haversine_rounding_up_example:
  "haversine rounding_up_flops (82, 0) (-82, 180) = Inl ValueError"
  unfolding haversine_def math_sqrt_def a_val_rounding_up_example
  by (simp add: exact_flops_def rounding_up_flops_def)

text \<open>An exception of \<^verbatim>\<open>haversine\<close> at the first step leaves the planner.\<close>

lemma greedy_route_raises:
  assumes "p \<noteq> q" and "G p = Some a" and "G q = Some b" and "depot \<noteq> Some q"
    and "haversine F a b = Inl e"
  shows "greedy_route_from_coords F G [p, q] depot = Inl e"
proof -
  have start: "(case depot of None \<Rightarrow> p | Some d \<Rightarrow> if d \<in> set [p, q] then d else p) = p"
    using assms(4) by (auto split: option.splits)
  have coords: "build_coords G [p, q] [] = [(p, a), (q, b)]"
    using assms(1,2,3) by simp
  have "route_loop F [(p, a), (q, b)] [p, q] [p] {p} 0 p = Inl e"
    using assms(1,5) by (simp add: route_loop.simps dict_item_def)
  then show ?thesis
    unfolding greedy_route_from_coords_def coords Let_def using start by simp
qed

subsection \<open>Claims on the route planner\<close>

text \<open>
  C4, as the code has it: when every input location resolves in the geocache, a route
  the planner returns has as many elements as the input has distinct location keys,
  which is the input location count when the input has no duplicate key; a duplicate
  key is visited once, since the coordinates are collected in a dictionary keyed by
  location. The planner does return a route when no distance between two different
  locations fails to compute.
\<close>

theorem route_length_is_distinct_count:
  assumes "\<forall>l\<in>set locations. G l \<noteq> None"
  shows "(\<forall>route d. greedy_route_from_coords F G locations depot = Inr (route, d) \<longrightarrow>
            length route = card (set locations) \<and>
            (distinct locations \<longrightarrow> length route = length locations)) \<and>
         ((\<forall>a\<in>set locations. \<forall>b\<in>set locations.
              a \<noteq> b \<longrightarrow> (\<exists>x. geo_dist F G a b = Inr x)) \<longrightarrow>
            (\<exists>route d. greedy_route_from_coords F G locations depot = Inr (route, d)))"
proof (intro conjI allI impI)
  fix route d
  assume r: "greedy_route_from_coords F G locations depot = Inr (route, d)"
  have "filter (\<lambda>l. G l \<noteq> None) locations = locations"
    using assms by (simp add: filter_id_conv)
  then have "mset route = mset (keep_first locations)"
    using greedy_route_perm [OF r] by simp
  then have "length route = length (keep_first locations)"
    by (rule mset_eq_length)
  also have "\<dots> = card (set locations)"
    using distinct_card [of "keep_first locations"] by simp
  finally show len: "length route = card (set locations)" .
  show "length route = length locations" if "distinct locations"
    using len that by (simp add: distinct_card)
next
  assume "\<forall>a\<in>set locations. \<forall>b\<in>set locations.
            a \<noteq> b \<longrightarrow> (\<exists>x. geo_dist F G a b = Inr x)"
  then show "\<exists>route d. greedy_route_from_coords F G locations depot = Inr (route, d)"
    by (intro greedy_route_total) auto
qed

theorem route_length_is_distinct_count_witness:
  "greedy_route_from_coords exact_flops [''A'' \<mapsto> (0, 0), ''B'' \<mapsto> (0, 180)]
       [''A'', ''B'', ''A''] None = Inr ([''A'', ''B''], py_round2 (6371 * pi)) \<and>
   length [''A'', ''B''] = card (set [''A'', ''B'', ''A''])"
proof -
  let ?G = "[''A'' \<mapsto> (0 :: real, 0 :: real), ''B'' \<mapsto> (0, 180)]"
  have res: "\<forall>l\<in>set [''A'', ''B'', ''A'']. ?G l \<noteq> None"
    by simp
  have run: "greedy_route_from_coords exact_flops ?G [''A'', ''B'', ''A''] None =
               Inr ([''A'', ''B''], py_round2 (6371 * pi))"
    by (simp add: greedy_route_from_coords_def route_loop.simps dict_item_def
        haversine_exact_examples fl_add_exact)
  have "length [''A'', ''B''] = card (set [''A'', ''B'', ''A''])"
    using route_length_is_distinct_count [OF res, of exact_flops None] run by blast
  then show ?thesis
    using run by blast
qed

text \<open>
  C4 as stated fails on a list with a duplicate key: the two-element list
  \<^verbatim>\<open>['A', 'A']\<close>, whose location resolves, gives the one-element route \<^verbatim>\<open>['A']\<close>.
\<close>

theorem duplicate_keys_counterexample:
  "[''A'' \<mapsto> (10::real, 10::real)] ''A'' \<noteq> None \<and>
   greedy_route_from_coords exact_flops [''A'' \<mapsto> (10, 10)] [''A'', ''A''] None =
     Inr ([''A''], 0) \<and>
   length [''A''] \<noteq> length [''A'', ''A'']"
  by (simp add: greedy_route_from_coords_def route_loop.simps py_round2_0)

text \<open>
  C5 where a distance fails to compute: on the duplicate-free list of two resolvable
  locations \<open>p\<close> and \<open>q\<close>, started at \<open>p\<close>, the planner returns no route but the
  exception \<^verbatim>\<open>haversine\<close> raises on their coordinates.
\<close>

theorem no_route_when_haversine_raises:
  assumes "p \<noteq> q" and "G p = Some a" and "G q = Some b" and "depot \<noteq> Some q"
    and "haversine F a b = Inl e"
  shows "greedy_route_from_coords F G [p, q] depot = Inl e"
  using assms by (rule greedy_route_raises)

theorem no_route_when_haversine_raises_witness:
  "greedy_route_from_coords rounding_up_flops [''P'' \<mapsto> (82, 0), ''Q'' \<mapsto> (-82, 180)]
     [''P'', ''Q''] None = Inl ValueError"
  using no_route_when_haversine_raises
    [of "''P''" "''Q''" "[''P'' \<mapsto> (82, 0), ''Q'' \<mapsto> (-82, 180)]" "(82, 0)" "(-82, 180)" None
      rounding_up_flops ValueError]
  by (simp add: haversine_rounding_up_example)

text \<open>
  C6 as far as the code goes: the planner is the selection of the specification. With
  no candidate it returns the empty route; otherwise it starts at the depot if the depot
  is a candidate and at the first candidate if not, appends at each step the first
  unvisited node at minimum \<^verbatim>\<open>haversine\<close> distance from the current node, adds that
  distance to the total, and returns the total rounded to a multiple of \<open>1/100\<close>. A
  distance that fails to compute ends the run with its exception in place of the route.
\<close>

theorem planRoute_is_nearest_neighbour:
  "greedy_route_from_coords F G locations depot = planRoute_spec F G locations depot \<and>
   (\<exists>k::int. py_round2 x = of_int k / 100 \<and> \<bar>py_round2 x - x\<bar> \<le> 1 / 200) \<and>
   (p \<noteq> q \<and> G p = Some a \<and> G q = Some b \<and> haversine F a b = Inl e \<longrightarrow>
      greedy_route_from_coords F G [p, q] None = Inl e)"
proof (intro conjI impI)
  show "greedy_route_from_coords F G locations depot = planRoute_spec F G locations depot"
    by (rule greedy_route_refines)
  show "\<exists>k::int. py_round2 x = of_int k / 100 \<and> \<bar>py_round2 x - x\<bar> \<le> 1 / 200"
    by (rule py_round2_nearest)
  show "greedy_route_from_coords F G [p, q] None = Inl e"
    if "p \<noteq> q \<and> G p = Some a \<and> G q = Some b \<and> haversine F a b = Inl e"
    using that by (intro greedy_route_raises [where a = a and b = b]) auto
qed

theorem planRoute_is_nearest_neighbour_witness:
  "greedy_route_from_coords exact_flops
       [''A'' \<mapsto> (0, 0), ''B'' \<mapsto> (0, 180), ''C'' \<mapsto> (0, 0)]
       [''A'', ''B'', ''C''] (Some ''A'') =
     Inr ([''A'', ''C'', ''B''], py_round2 (6371 * pi)) \<and>
   greedy_route_from_coords rounding_up_flops [''P'' \<mapsto> (82, 0), ''Q'' \<mapsto> (-82, 180)]
     [''P'', ''Q''] None = Inl ValueError"
proof -
  let ?G = "[''A'' \<mapsto> (0 :: real, 0 :: real), ''B'' \<mapsto> (0, 180), ''C'' \<mapsto> (0, 0)]"
  have "\<not> pi \<le> 0"
    using pi_gt_zero by linarith
  then have "planRoute_spec exact_flops ?G [''A'', ''B'', ''C''] (Some ''A'') =
          Inr ([''A'', ''C'', ''B''], py_round2 (6371 * pi))"
    by (simp add: planRoute_spec_def nearest_neighbour.simps geo_dist_def
        haversine_exact_examples fl_add_exact)
  then have 1: "greedy_route_from_coords exact_flops ?G [''A'', ''B'', ''C''] (Some ''A'') =
          Inr ([''A'', ''C'', ''B''], py_round2 (6371 * pi))"
    using planRoute_is_nearest_neighbour [of exact_flops ?G "[''A'', ''B'', ''C'']" "Some ''A''"]
    by simp
  have 2: "greedy_route_from_coords rounding_up_flops [''P'' \<mapsto> (82, 0), ''Q'' \<mapsto> (-82, 180)]
     [''P'', ''Q''] None = Inl ValueError"
    using planRoute_is_nearest_neighbour
      [of rounding_up_flops "[''P'' \<mapsto> (82, 0), ''Q'' \<mapsto> (-82, 180)]" _ _ _
        "''P''" "''Q''" "(82, 0)" "(-82, 180)" ValueError, THEN conjunct2, THEN conjunct2]
    by (simp add: haversine_rounding_up_example)
  show ?thesis
    using 1 2 by blast
qed

text \<open>
  C8: the planner applied to the empty list returns the empty route and distance 0
  for every depot, and applied to one resolvable location it returns that location
  alone and distance 0.
\<close>

theorem planRoute_boundary:
  "greedy_route_from_coords F G [] depot = Inr ([], 0) \<and>
   (G loc = Some c \<longrightarrow> greedy_route_from_coords F G [loc] depot = Inr ([loc], 0))"
  by (auto simp add: greedy_route_from_coords_def route_loop.simps py_round2_0
      split: option.splits)

theorem planRoute_boundary_witness:
  "[''A'' \<mapsto> (10::real, 10::real)] ''A'' = Some (10, 10) \<and>
   greedy_route_from_coords exact_flops [''A'' \<mapsto> (10, 10)] [''A''] (Some ''B'') =
     Inr ([''A''], 0)"
  using planRoute_boundary
    [of exact_flops "[''A'' \<mapsto> (10::real, 10::real)]" "Some ''B''" "''A''" "(10, 10)"]
  by simp

section \<open>Properties of the assignment engine\<close>

lemma py_eq_sym: "py_eq a b = py_eq b a"
  by (induction a b rule: py_eq.induct) auto

lemma py_eq_trans: "py_eq a b \<Longrightarrow> py_eq b c \<Longrightarrow> py_eq a c"
  by (cases a; cases b; cases c) (auto split: if_splits)

lemma get_setdefault_append:
  "by_problem_get (setdefault_append bp prob loc) p =
     (if py_eq prob p then by_problem_get bp p @ [loc] else by_problem_get bp p)"
proof (induction bp prob loc rule: setdefault_append.induct)
  case (1 prob loc)
  then show ?case by simp
next
  case (2 k ls rest prob loc)
  then show ?case
    using py_eq_trans [of k prob p] py_eq_trans [of k p prob] py_eq_trans [of prob k p]
      py_eq_sym [of prob p] py_eq_sym [of k prob] py_eq_sym [of k p]
    by auto
qed

lemma get_group_customers:
  "by_problem_get (group_customers customers bp) p =
     by_problem_get bp p @ matching_locations customers p"
  by (induction customers arbitrary: bp)
     (auto simp: matching_locations_def routable_ticket_def Let_def get_setdefault_append)


lemma assign_employees_step:
  "assign_employees bp (emp # employees) acc =
     (if is_available emp \<and> by_problem_get bp (dget emp ''problem_occured'') \<noteq> [] then
        assign_employees bp employees
          (acc @ [\<lparr>e_id = dget emp ''e_id'', name = dget emp ''name'',
                    assigned_locations = by_problem_get bp (dget emp ''problem_occured''),
                    problem_occured = dget emp ''problem_occured''\<rparr>])
      else assign_employees bp employees acc)"
  by (simp add: Let_def)

lemma assign_employees_locations:
  "a \<in> set (assign_employees bp employees acc) \<Longrightarrow>
     a \<in> set acc \<or> (\<exists>prob. assigned_locations a = by_problem_get bp prob)"
proof (induction employees arbitrary: acc)
  case Nil
  then show ?case by simp
next
  case (Cons emp employees)
  let ?prob = "dget emp ''problem_occured''"
  let ?x = "\<lparr>e_id = dget emp ''e_id'', name = dget emp ''name'',
             assigned_locations = by_problem_get bp ?prob, problem_occured = ?prob\<rparr>"
  show ?case
  proof (cases "is_available emp \<and> by_problem_get bp ?prob \<noteq> []")
    case True
    then have "a \<in> set (assign_employees bp employees (acc @ [?x]))"
      using Cons.prems by (simp add: assign_employees_step del: assign_employees.simps)
    then have "a \<in> set (acc @ [?x]) \<or> (\<exists>prob. assigned_locations a = by_problem_get bp prob)"
      by (rule Cons.IH)
    then consider "a \<in> set acc" | "a = ?x"
      | "\<exists>prob. assigned_locations a = by_problem_get bp prob"
      by auto
    then show ?thesis
    proof cases
      case 1
      then show ?thesis by simp
    next
      case 2
      then have "assigned_locations a = by_problem_get bp ?prob"
        by simp
      then show ?thesis by blast
    next
      case 3
      then show ?thesis by simp
    qed
  next
    case False
    then have "assign_employees bp (emp # employees) acc = assign_employees bp employees acc"
      by (subst assign_employees_step) (rule if_not_P)
    then have "a \<in> set (assign_employees bp employees acc)"
      using Cons.prems by (simp only:)
    then show ?thesis
      by (rule Cons.IH)
  qed
qed

lemma group_customers_routable:
  "group_customers (filter routable_ticket customers) bp = group_customers customers bp"
  by (induction customers arbitrary: bp) (auto simp: routable_ticket_def Let_def)



text \<open>
  C3 at the availability \<^verbatim>\<open>'y'\<close>: the employee's normalised availability is \<^verbatim>\<open>'y'\<close>, a
  ticket matches the employee's problem, and \<^verbatim>\<open>assign_locations\<close> returns no assignment.
\<close>

theorem availability_y_excluded:
  "avail_of [''e_id'' \<mapsto> JStr ''E1'', ''name'' \<mapsto> JStr ''Ann'',
             ''problem_occured'' \<mapsto> JStr ''leak'', ''availability'' \<mapsto> JStr ''y''] = ''y'' \<and>
   assign_locations
     [[''e_id'' \<mapsto> JStr ''E1'', ''name'' \<mapsto> JStr ''Ann'',
       ''problem_occured'' \<mapsto> JStr ''leak'', ''availability'' \<mapsto> JStr ''y'']]
     [[''location'' \<mapsto> JStr ''A'', ''problem_occured'' \<mapsto> JStr ''leak'']] = []"
  by (simp add: assign_locations_def dget_def dget_default_def is_available_def avail_of_def
      py_lower_def py_strip_def is_space_def lower_char_def char_of_eq_iff)

text \<open>
  C9: the tickets whose location or problem is missing or falsy do not count: the
  result is that of the ticket list without them, and every assigned location is the
  location of a ticket with a truthy location and problem.
\<close>

theorem falsy_tickets_skipped:
  "assign_locations employees customers =
     assign_locations employees (filter routable_ticket customers) \<and>
   (\<forall>a\<in>set (assign_locations employees customers). \<forall>loc\<in>set (assigned_locations a).
      \<exists>c\<in>set customers. routable_ticket c \<and> loc = dget c ''location'')"
proof
  show "assign_locations employees customers =
          assign_locations employees (filter routable_ticket customers)"
    by (simp add: assign_locations_def group_customers_routable)
next
  show "\<forall>a\<in>set (assign_locations employees customers). \<forall>loc\<in>set (assigned_locations a).
          \<exists>c\<in>set customers. routable_ticket c \<and> loc = dget c ''location''"
  proof (intro ballI)
    fix a loc
    assume a: "a \<in> set (assign_locations employees customers)"
      and loc: "loc \<in> set (assigned_locations a)"
    from a obtain prob where
      "assigned_locations a = by_problem_get (group_customers customers []) prob"
      unfolding assign_locations_def using assign_employees_locations by fastforce
    then have "loc \<in> set (matching_locations customers prob)"
      using loc by (simp add: get_group_customers)
    then show "\<exists>c\<in>set customers. routable_ticket c \<and> loc = dget c ''location''"
      by (auto simp: matching_locations_def)
  qed
qed

theorem falsy_tickets_skipped_witness:
  "assign_locations
     [[''e_id'' \<mapsto> JStr ''E1'', ''name'' \<mapsto> JStr ''Ann'',
       ''problem_occured'' \<mapsto> JStr ''leak'', ''availability'' \<mapsto> JStr ''yes'']]
     [[''location'' \<mapsto> JStr [], ''problem_occured'' \<mapsto> JStr ''leak''],
      [''location'' \<mapsto> JStr ''A'', ''problem_occured'' \<mapsto> JStr ''leak''],
      [''location'' \<mapsto> JStr ''B''],
      [''location'' \<mapsto> JNull, ''problem_occured'' \<mapsto> JStr ''leak'']]
   = [\<lparr>e_id = JStr ''E1'', name = JStr ''Ann'', assigned_locations = [JStr ''A''],
       problem_occured = JStr ''leak''\<rparr>]"
  using falsy_tickets_skipped
    [of "[[''e_id'' \<mapsto> JStr ''E1'', ''name'' \<mapsto> JStr ''Ann'',
       ''problem_occured'' \<mapsto> JStr ''leak'', ''availability'' \<mapsto> JStr ''yes'']]"
     "[[''location'' \<mapsto> JStr [], ''problem_occured'' \<mapsto> JStr ''leak''],
      [''location'' \<mapsto> JStr ''A'', ''problem_occured'' \<mapsto> JStr ''leak''],
      [''location'' \<mapsto> JStr ''B''],
      [''location'' \<mapsto> JNull, ''problem_occured'' \<mapsto> JStr ''leak'']]"]
  by (simp add: assign_locations_def dget_def dget_default_def is_available_def avail_of_def
      py_lower_def py_strip_def is_space_def lower_char_def char_of_eq_iff routable_ticket_def)

section \<open>Properties of the endpoints\<close>

lemma greedy_route_Nil: "greedy_route_from_coords F G [] depot = Inr ([], 0)"
  by (simp add: greedy_route_from_coords_def)

lemma no_map_for_empty_route: "generate_route_map_html render G nm [] = None"
  by (simp add: generate_route_map_html_def)

text \<open>
  C1: when the requested employee has an assignment none of whose locations is in the
  geocache, each endpoint answers otherwise than for a request that selects no
  assignment: the first two answer 200 with the empty route and distance 0, the map
  endpoint answers 500 for the missing map, and the request without an assignment is
  answered 404.
\<close>

theorem empty_route_distinct_from_not_found:
  assumes "employees \<noteq> []" and "customers \<noteq> []"
    and "select_assignment (dget p ''e_id'') (dget p ''name'')
           (assign_locations employees customers) = Inr (Some a)"
    and "\<forall>loc\<in>set (assigned_locations a). geo G loc = None"
    and "select_assignment (dget q ''e_id'') (dget q ''name'')
           (assign_locations employees customers) = Inr None"
  shows "assign_locations_endpoint F render G employees customers (Inr p) =
           (200, RouteMap (e_id a) (name a) [] 0 None) \<and>
         assign_locations_endpoint F render G employees customers (Inr q) =
           (404, ErrorBody ''Employee not found or no assigned locations'') \<and>
         optimized_route F G employees customers (Inr p) =
           (200, RouteOnly (e_id a) (name a) [] 0) \<and>
         optimized_route F G employees customers (Inr q) =
           (404, ErrorBody ''Employee not found or no assigned locations'') \<and>
         optimized_map F render G employees customers (Inr p) =
           (500, ErrorBody ''Failed to generate map (no coordinates)'') \<and>
         optimized_map F render G employees customers (Inr q) =
           (404, ErrorBody ''Employee not found or no assigned locations'') \<and>
         assign_locations_endpoint F render G employees customers (Inr p) \<noteq>
           assign_locations_endpoint F render G employees customers (Inr q) \<and>
         optimized_route F G employees customers (Inr p) \<noteq>
           optimized_route F G employees customers (Inr q) \<and>
         optimized_map F render G employees customers (Inr p) \<noteq>
           optimized_map F render G employees customers (Inr q)"
proof -
  have flt: "filter (\<lambda>loc. geo G loc \<noteq> None) (assigned_locations a) = []"
    using assms(4) by (simp add: filter_empty_conv)
  show ?thesis
    using assms(1,2,3,5)
    by (simp add: assign_locations_endpoint_def optimized_route_def optimized_map_def Let_def
        flt greedy_route_Nil no_map_for_empty_route del: not_None_eq)
qed

theorem empty_route_distinct_from_not_found_witness:
  "assign_locations_endpoint exact_flops (\<lambda>route route_coords. ''map'') Map.empty
     [[''e_id'' \<mapsto> JStr ''E1'', ''name'' \<mapsto> JStr ''Ann'',
       ''problem_occured'' \<mapsto> JStr ''leak'', ''availability'' \<mapsto> JStr ''yes'']]
     [[''location'' \<mapsto> JStr ''Z'', ''problem_occured'' \<mapsto> JStr ''leak'']]
     (Inr [''e_id'' \<mapsto> JStr ''E1'']) = (200, RouteMap (JStr ''E1'') (JStr ''Ann'') [] 0 None) \<and>
   assign_locations_endpoint exact_flops (\<lambda>route route_coords. ''map'') Map.empty
     [[''e_id'' \<mapsto> JStr ''E1'', ''name'' \<mapsto> JStr ''Ann'',
       ''problem_occured'' \<mapsto> JStr ''leak'', ''availability'' \<mapsto> JStr ''yes'']]
     [[''location'' \<mapsto> JStr ''Z'', ''problem_occured'' \<mapsto> JStr ''leak'']]
     (Inr [''e_id'' \<mapsto> JStr ''E9'']) =
       (404, ErrorBody ''Employee not found or no assigned locations'')"
proof -
  let ?E = "[[''e_id'' \<mapsto> JStr ''E1'', ''name'' \<mapsto> JStr ''Ann'',
       ''problem_occured'' \<mapsto> JStr ''leak'', ''availability'' \<mapsto> JStr ''yes'']]"
  let ?C = "[[''location'' \<mapsto> JStr ''Z'', ''problem_occured'' \<mapsto> JStr ''leak'']]"
  let ?a = "\<lparr>e_id = JStr ''E1'', name = JStr ''Ann'', assigned_locations = [JStr ''Z''],
              problem_occured = JStr ''leak''\<rparr>"
  have A: "assign_locations ?E ?C = [?a]"
    by (simp add: assign_locations_def dget_def dget_default_def is_available_def avail_of_def
      py_lower_def py_strip_def is_space_def lower_char_def char_of_eq_iff)
  have 1: "?E \<noteq> []" and 2: "?C \<noteq> []"
    by simp_all
  have 3: "select_assignment (dget [''e_id'' \<mapsto> JStr ''E1''] ''e_id'')
             (dget [''e_id'' \<mapsto> JStr ''E1''] ''name'') (assign_locations ?E ?C) = Inr (Some ?a)"
    unfolding A by (simp add: select_assignment_def dget_def)
  have 4: "\<forall>loc\<in>set (assigned_locations ?a). geo Map.empty loc = None"
    by (simp add: geo_def)
  have 5: "select_assignment (dget [''e_id'' \<mapsto> JStr ''E9''] ''e_id'')
             (dget [''e_id'' \<mapsto> JStr ''E9''] ''name'') (assign_locations ?E ?C) = Inr None"
    unfolding A by (simp add: select_assignment_def dget_def)
  show ?thesis
    using empty_route_distinct_from_not_found [OF 1 2 3 4 5, of exact_flops "\<lambda>route route_coords. ''map''"] by simp
qed

lemma py_strip_left:
  assumes "\<forall>c\<in>set l. is_space c"
  shows "py_strip (l @ s) = py_strip s"
proof -
  have "dropWhile is_space (l @ s) = dropWhile is_space s"
    using assms by (intro dropWhile_append2) auto
  then show ?thesis
    unfolding py_strip_def by simp
qed

lemma py_strip_right:
  assumes "\<forall>c\<in>set r. is_space c"
  shows "py_strip (s @ r) = py_strip s"
proof (cases "\<forall>c\<in>set s. is_space c")
  case True
  then have e: "dropWhile is_space (s @ r) = []" "dropWhile is_space s = []"
    using assms by (auto simp: dropWhile_eq_Nil_conv)
  show ?thesis
    unfolding py_strip_def e by simp
next
  case False
  then obtain x where "x \<in> set s" "\<not> is_space x"
    by blast
  then have d: "dropWhile is_space (s @ r) = dropWhile is_space s @ r"
    by (rule dropWhile_append1)
  have "dropWhile is_space (rev r @ rev (dropWhile is_space s)) =
          dropWhile is_space (rev (dropWhile is_space s))"
    using assms by (intro dropWhile_append2) auto
  then show ?thesis
    unfolding py_strip_def d by simp
qed

lemma is_space_lower_char: "is_space (lower_char c) = is_space c"
proof -
  have "of_char (char_of (n + 32) :: char) = n + 32" if "n \<le> 222" for n :: nat
    using that by simp
  then show ?thesis
    by (auto simp: lower_char_def is_space_def Let_def)
qed

lemma py_strip_lower: "py_strip (py_lower s) = py_lower (py_strip s)"
proof -
  have c: "is_space \<circ> lower_char = is_space"
    by (rule ext) (simp add: is_space_lower_char)
  show ?thesis
    by (simp add: py_strip_def py_lower_def dropWhile_map rev_map c)
qed

text \<open>The string form of an integer is its decimal numeral, which determines it.\<close>

lemma digit_char_value: "d < 10 \<Longrightarrow> of_char (digit_char d) = 48 + d"
proof -
  assume "d < 10"
  then have "d \<in> set [0..<10]"
    by simp
  then have "d \<in> {0, 1, 2, 3, 4, 5, 6, 7, 8, 9}"
    by (simp add: upt_rec numeral_eq_Suc)
  then show ?thesis
    by (auto simp add: digit_char_def)
qed

lemma digits_value_nat_digits: "digits_value (nat_digits n) = n"
proof (induction n rule: nat_digits.induct)
  case (1 n)
  show ?case
  proof (cases "n < 10")
    case True
    then show ?thesis
      by (simp add: nat_digits.simps [of n] digits_value_def digit_char_value)
  next
    case False
    then have "digits_value (nat_digits (n div 10)) = n div 10"
      using 1 by simp
    then show ?thesis
      using False
      by (simp add: nat_digits.simps [of n] digits_value_def digit_char_value)
  qed
qed

lemma nat_digits_no_minus: "CHR ''-'' \<notin> set (nat_digits n)"
proof (induction n rule: nat_digits.induct)
  case (1 n)
  have d: "digit_char k \<noteq> CHR ''-''" if "k < 10" for k
    using digit_char_value [OF that] by auto
  show ?case
  proof (cases "n < 10")
    case True
    then show ?thesis
      using d [of n] by (simp add: nat_digits.simps [of n])
  next
    case False
    then show ?thesis
      using 1 d [of "n mod 10"] by (simp add: nat_digits.simps [of n])
  qed
qed

lemma py_str_int_inj:
  assumes "py_str (JInt i) = py_str (JInt j)"
  shows "i = j"
proof -
  have neg: "CHR ''-'' # nat_digits m \<noteq> nat_digits n" for m n
    using nat_digits_no_minus [of n] by (metis list.set_intros(1))
  have inj: "nat_digits m = nat_digits n \<Longrightarrow> m = n" for m n
    by (metis digits_value_nat_digits)
  show ?thesis
  proof (cases "i < 0"; cases "j < 0")
    assume "i < 0" "j < 0"
    then have "nat (- i) = nat (- j)"
      using assms inj by simp
    then show ?thesis
      using \<open>i < 0\<close> \<open>j < 0\<close> by linarith
  next
    assume "i < 0" "\<not> j < 0"
    then show ?thesis
      using assms neg by simp
  next
    assume "\<not> i < 0" "j < 0"
    then show ?thesis
      using assms neg [of "nat (- j)" "nat i"] by simp
  next
    assume "\<not> i < 0" "\<not> j < 0"
    then have "nat i = nat j"
      using assms inj by simp
    then show ?thesis
      using \<open>\<not> i < 0\<close> \<open>\<not> j < 0\<close> by linarith
  qed
qed

text \<open>
  C10, as the code has it: with a truthy \<^verbatim>\<open>e_id\<close> in the request, the first assignment
  whose \<^verbatim>\<open>e_id\<close> has the same string form is selected, whatever the request's \<^verbatim>\<open>name\<close>;
  the string form of a string is the string itself, untrimmed and in its own case, and
  that of an integer its decimal numeral. With a falsy \<^verbatim>\<open>e_id\<close> (absent, null, false,
  0 or the empty string) and a truthy \<^verbatim>\<open>name\<close>, it is the first assignment whose name,
  trimmed and lowered, is the trimmed and lowered requested name, so that a requested
  name padded with whitespace or written in another case selects the same assignment.
\<close>

theorem lookup_by_id_exact_by_name_normalised:
  "(truthy eid \<longrightarrow>
      select_assignment eid nm assignments =
        Inr (find (\<lambda>a. py_str (e_id a) = py_str eid) assignments) \<and>
      select_assignment eid nm assignments = select_assignment eid nm' assignments) \<and>
   py_str (JStr s) = s \<and>
   (py_str (JInt i) = py_str (JInt j) \<longrightarrow> i = j) \<and>
   digits_value (py_str (JInt (int k))) = k \<and>
   (\<not> truthy eid \<and> truthy nm \<longrightarrow>
      select_assignment eid nm assignments =
        Inr (find (\<lambda>a. py_lower (py_strip (py_str (name a))) = py_lower (py_strip (py_str nm)))
               assignments)) \<and>
   (\<not> truthy eid \<and> n \<noteq> [] \<and> n' \<noteq> [] \<and> py_lower n' = py_lower n \<and>
    (\<forall>c\<in>set l. is_space c) \<and> (\<forall>c\<in>set r. is_space c) \<longrightarrow>
      select_assignment eid (JStr (l @ n' @ r)) assignments =
        select_assignment eid (JStr n) assignments)"
proof -
  have "py_lower (py_strip (l @ n' @ r)) = py_lower (py_strip n)"
    if "\<forall>c\<in>set l. is_space c" "\<forall>c\<in>set r. is_space c" "py_lower n' = py_lower n"
  proof -
    have "py_lower (py_strip n') = py_lower (py_strip n)"
      using that(3) by (simp add: py_strip_lower [symmetric])
    then show ?thesis
      using that(1,2) by (simp add: py_strip_left py_strip_right)
  qed
  moreover have "py_str (JInt i) = py_str (JInt j) \<longrightarrow> i = j"
    using py_str_int_inj by blast
  moreover have "digits_value (py_str (JInt (int k))) = k"
    by (simp add: digits_value_nat_digits)
  ultimately show ?thesis
    by (auto simp add: select_assignment_def)
qed

theorem lookup_by_id_exact_by_name_normalised_witness:
  "select_assignment (JStr ''E1'') (JStr ''Bob'')
     [\<lparr>e_id = JStr ''E2'', name = JStr ''Bob'', assigned_locations = [JStr ''B''],
        problem_occured = JStr ''leak''\<rparr>,
      \<lparr>e_id = JStr ''E1'', name = JStr ''Ann'', assigned_locations = [JStr ''A''],
        problem_occured = JStr ''leak''\<rparr>]
     = Inr (Some \<lparr>e_id = JStr ''E1'', name = JStr ''Ann'', assigned_locations = [JStr ''A''],
                   problem_occured = JStr ''leak''\<rparr>) \<and>
   select_assignment (JStr '' e1'') (JStr ''Bob'')
     [\<lparr>e_id = JStr ''E2'', name = JStr ''Bob'', assigned_locations = [JStr ''B''],
        problem_occured = JStr ''leak''\<rparr>,
      \<lparr>e_id = JStr ''E1'', name = JStr ''Ann'', assigned_locations = [JStr ''A''],
        problem_occured = JStr ''leak''\<rparr>]
     = Inr None \<and>
   select_assignment (JInt 17) JNull
     [\<lparr>e_id = JStr ''017'', name = JStr ''Bob'', assigned_locations = [JStr ''B''],
        problem_occured = JStr ''leak''\<rparr>,
      \<lparr>e_id = JStr ''17'', name = JStr ''Ann'', assigned_locations = [JStr ''A''],
        problem_occured = JStr ''leak''\<rparr>]
     = Inr (Some \<lparr>e_id = JStr ''17'', name = JStr ''Ann'', assigned_locations = [JStr ''A''],
                   problem_occured = JStr ''leak''\<rparr>) \<and>
   select_assignment (JStr ''-4'') JNull
     [\<lparr>e_id = JBool True, name = JStr ''Bob'', assigned_locations = [JStr ''B''],
        problem_occured = JStr ''leak''\<rparr>,
      \<lparr>e_id = JInt (- 4), name = JStr ''Ann'', assigned_locations = [JStr ''A''],
        problem_occured = JStr ''leak''\<rparr>]
     = Inr (Some \<lparr>e_id = JInt (- 4), name = JStr ''Ann'', assigned_locations = [JStr ''A''],
                   problem_occured = JStr ''leak''\<rparr>) \<and>
   select_assignment JNull (JStr '' ANN '')
     [\<lparr>e_id = JStr ''E2'', name = JStr ''Bob'', assigned_locations = [JStr ''B''],
        problem_occured = JStr ''leak''\<rparr>,
      \<lparr>e_id = JStr ''E1'', name = JStr ''Ann'', assigned_locations = [JStr ''A''],
        problem_occured = JStr ''leak''\<rparr>]
     = Inr (Some \<lparr>e_id = JStr ''E1'', name = JStr ''Ann'', assigned_locations = [JStr ''A''],
                   problem_occured = JStr ''leak''\<rparr>) \<and>
   select_assignment JNull (JStr '' ANN '')
     [\<lparr>e_id = JStr ''E2'', name = JStr ''Bob'', assigned_locations = [JStr ''B''],
        problem_occured = JStr ''leak''\<rparr>,
      \<lparr>e_id = JStr ''E1'', name = JStr ''Ann'', assigned_locations = [JStr ''A''],
        problem_occured = JStr ''leak''\<rparr>]
     = select_assignment JNull (JStr ''ann'')
     [\<lparr>e_id = JStr ''E2'', name = JStr ''Bob'', assigned_locations = [JStr ''B''],
        problem_occured = JStr ''leak''\<rparr>,
      \<lparr>e_id = JStr ''E1'', name = JStr ''Ann'', assigned_locations = [JStr ''A''],
        problem_occured = JStr ''leak''\<rparr>]"
  using
    lookup_by_id_exact_by_name_normalised [of "JStr ''E1''" "JStr ''Bob''"]
    lookup_by_id_exact_by_name_normalised [of "JStr '' e1''" "JStr ''Bob''"]
    lookup_by_id_exact_by_name_normalised [of "JInt 17" JNull]
    lookup_by_id_exact_by_name_normalised [of "JStr ''-4''" JNull]
    lookup_by_id_exact_by_name_normalised [of JNull "JStr '' ANN ''"]
    lookup_by_id_exact_by_name_normalised [of JNull _ _ _ _ _ _ _ "''ann''" "''ANN''" "'' ''" "'' ''"]
  by (simp add: py_lower_def py_strip_def is_space_def lower_char_def char_of_eq_iff
      nat_digits.simps digit_char_def)

text \<open>
  C10 as stated fails when the \<^verbatim>\<open>e_id\<close> supplied is falsy: for the request with
  \<^verbatim>\<open>e_id\<close> 0 and \<^verbatim>\<open>name\<close> \<^verbatim>\<open>'Bob'\<close> the name decides, although the first assignment has
  the \<^verbatim>\<open>e_id\<close> 0.
\<close>

theorem falsy_e_id_counterexample:
  "py_str (e_id \<lparr>e_id = JInt 0, name = JStr ''Ann'', assigned_locations = [JStr ''A''],
                  problem_occured = JStr ''leak''\<rparr>) = py_str (JInt 0) \<and>
   select_assignment (JInt 0) (JStr ''Bob'')
     [\<lparr>e_id = JInt 0, name = JStr ''Ann'', assigned_locations = [JStr ''A''],
        problem_occured = JStr ''leak''\<rparr>,
      \<lparr>e_id = JStr ''E2'', name = JStr ''Bob'', assigned_locations = [JStr ''B''],
        problem_occured = JStr ''leak''\<rparr>]
     = Inr (Some \<lparr>e_id = JStr ''E2'', name = JStr ''Bob'', assigned_locations = [JStr ''B''],
                   problem_occured = JStr ''leak''\<rparr>)"
  by (simp add: select_assignment_def py_lower_def py_strip_def is_space_def lower_char_def
      char_of_eq_iff)

end
